theory Spec2Isabelle
  imports Main "HOL-Library.Char_ord" "HOL-Library.List_Lexorder" "HOL-Library.Multiset"
begin

section \<open>Data model of \<^verbatim>\<open>idz.py\<close>\<close>

text \<open>
  Python \<^verbatim>\<open>str\<close> values are modelled as \<^typ>\<open>string\<close>, read as the UTF-8 bytes of the
  text: equality is equality of texts, and the lexicographic order on bytes is the order
  of Python's \<^verbatim>\<open>str\<close> comparison (code point by code point). Python's unbounded
  \<^verbatim>\<open>int\<close> is \<^typ>\<open>int\<close>.

  The exceptions that reach the caller are values of \<open>error\<close>. \<open>IllegalCount\<close> is the
  class of the program (the specification's ValidationError) and carries the offending
  count. \<open>OSError\<close> is what \<^verbatim>\<open>open\<close> raises (the specification's IOError),
  \<open>ParseError\<close> what \<^verbatim>\<open>ET.fromstring\<close> raises on text that is not well-formed XML,
  \<open>ValueError\<close> and \<open>TypeError\<close> what \<^verbatim>\<open>int(...)\<close> and \<^verbatim>\<open>str(...)\<close> raise.
\<close>

datatype error = IllegalCount int | OSError | ParseError | ValueError | TypeError

text \<open>\<^verbatim>\<open>@dataclass(frozen=True) class Product\<close>\<close>

record product =
  name :: string
  market :: string
  count :: int

text \<open>\<^verbatim>\<open>@dataclass class Staff\<close>, with its single field \<^verbatim>\<open>products\<close>.\<close>

record staff =
  products :: "product list"

text \<open>
  An \<^verbatim>\<open>xml.etree.ElementTree.Element\<close> as far as the program reads and writes it:
  its tag, its text (\<^verbatim>\<open>None\<close> when the element holds no character data before its
  first child) and its child elements in document order. The program never sets or reads
  attributes or tails.
\<close>

datatype element = Element (tag: string) (text_of: "string option") (children: "element list")

text \<open>
  What the conversions between integers and text depend on besides their argument:
  \<^item> the interpreter's limit on the number of digits,
    \<^verbatim>\<open>sys.get_int_max_str_digits()\<close>: 4300 unless it is changed, 0 when it is
    switched off, and never a value from 1 to 639;
  \<^item> what \<^verbatim>\<open>int(s)\<close> returns for a text \<open>s\<close> that holds a character outside ASCII
    (\<open>None\<close>: it raises \<^verbatim>\<open>ValueError\<close>). Python reads the decimal digits and the
    blanks of every script there, by tables that come with the interpreter; they are not
    spelled out here, every theorem holds whatever they say.
\<close>

record interpreter =
  max_str_digits :: nat
  int_of_unicode :: "string \<Rightarrow> int option"

section \<open>\<^verbatim>\<open>Staff.add\<close> and \<^verbatim>\<open>Staff.select\<close>\<close>

text \<open>
  \<^verbatim>\<open>
  def add(self, name, market, count):
      if count < 0:
          raise IllegalCount(count)
      self.products.append(Product(name=name, market=market, count=count))
      self.products.sort(key=lambda product: product.name)
  \<close>
  Every operation returns the exception it raised (if any) together with the state of the
  \<^verbatim>\<open>Staff\<close> object after the call. \<^verbatim>\<open>list.sort\<close> is a stable sort; the result of a
  stable sort by a key is unique, and \<^const>\<open>sort_key\<close> computes it.
\<close>

definition add :: "string \<Rightarrow> string \<Rightarrow> int \<Rightarrow> staff \<Rightarrow> error option \<times> staff" where
  "add nm mk ct s =
     (if ct < 0 then (Some (IllegalCount ct), s)
      else (None, s\<lparr>products :=
              sort_key name (products s @ [\<lparr>name = nm, market = mk, count = ct\<rparr>])\<rparr>))"

text \<open>A sequence of \<^verbatim>\<open>add\<close> calls, each given by its three arguments; it stops at the
  first call that raises, as a caller that does not catch the exception would.\<close>

fun add_all :: "(string \<times> string \<times> int) list \<Rightarrow> staff \<Rightarrow> error option \<times> staff" where
  "add_all [] s = (None, s)"
| "add_all ((nm, mk, ct) # calls) s =
     (case add nm mk ct s of
        (Some err, s') \<Rightarrow> (Some err, s')
      | (None, s') \<Rightarrow> add_all calls s')"

text \<open>The record that a call \<^verbatim>\<open>add(name, market, count)\<close> constructs.\<close>

definition record_of :: "string \<times> string \<times> int \<Rightarrow> product" where
  "record_of c = (case c of (nm, mk, ct) \<Rightarrow> \<lparr>name = nm, market = mk, count = ct\<rparr>)"

text \<open>
  \<^verbatim>\<open>
  def select(self, name):
      result = []
      for product in self.products:
          if product.name == name:
              result.append(product)
      return result
  \<close>
\<close>

fun select_loop :: "product list \<Rightarrow> string \<Rightarrow> product list \<Rightarrow> product list" where
  "select_loop [] nm result = result"
| "select_loop (p # ps) nm result =
     select_loop ps nm (if name p = nm then result @ [p] else result)"

definition select :: "string \<Rightarrow> staff \<Rightarrow> product list \<times> staff" where
  "select nm s = (select_loop (products s) nm [], s)"

section \<open>Library functions the program calls\<close>

subsection \<open>\<^verbatim>\<open>int(s)\<close> and \<^verbatim>\<open>str(i)\<close>\<close>

text \<open>
  \<^verbatim>\<open>int(s)\<close> on an ASCII \<^verbatim>\<open>str\<close>, base 10: the blanks of the C locale are stripped at
  both ends, then comes an optional sign, then decimal digits, where single underscores
  may separate digits; anything else raises \<^verbatim>\<open>ValueError\<close>.
\<close>

definition is_space :: "char \<Rightarrow> bool" where
  "is_space c \<longleftrightarrow> c \<in> set [CHR '' '', CHR 0x09, CHR 0x0A, CHR 0x0B, CHR 0x0C, CHR 0x0D]"

definition strip :: "string \<Rightarrow> string" where
  "strip s = rev (dropWhile is_space (rev (dropWhile is_space s)))"

definition is_digit :: "char \<Rightarrow> bool" where
  "is_digit c \<longleftrightarrow> c \<in> set ''0123456789''"

definition digit_value :: "char \<Rightarrow> nat" where
  "digit_value c = of_char c - 48"

text \<open>The digits after the first one; \<open>acc\<close> is the value read so far.\<close>

fun read_digits :: "nat \<Rightarrow> string \<Rightarrow> nat option" where
  "read_digits acc [] = Some acc"
| "read_digits acc [c] = (if is_digit c then Some (10 * acc + digit_value c) else None)"
| "read_digits acc (c # d # cs) =
     (if is_digit c then read_digits (10 * acc + digit_value c) (d # cs)
      else if c = CHR ''_'' \<and> is_digit d then read_digits (10 * acc + digit_value d) cs
      else None)"

definition read_unsigned :: "string \<Rightarrow> nat option" where
  "read_unsigned s =
     (case s of
        [] \<Rightarrow> None
      | c # cs \<Rightarrow> if is_digit c then read_digits (digit_value c) cs else None)"

definition ascii_int :: "string \<Rightarrow> int option" where
  "ascii_int s =
     (case strip s of
        [] \<Rightarrow> None
      | c # cs \<Rightarrow>
          if c = CHR ''-'' then map_option (\<lambda>n. - int n) (read_unsigned cs)
          else if c = CHR ''+'' then map_option int (read_unsigned cs)
          else map_option int (read_unsigned (c # cs)))"

text \<open>
  The limit on the number of digits, for a text or a number of \<open>n\<close> digits: both
  conversions raise \<^verbatim>\<open>ValueError\<close> when the limit is switched on and \<open>n\<close> exceeds it
  (and exceeds 640, below which the interpreter does not look at the limit).
\<close>

definition over_limit :: "interpreter \<Rightarrow> nat \<Rightarrow> bool" where
  "over_limit I n \<longleftrightarrow> 0 < max_str_digits I \<and> 640 < n \<and> max_str_digits I < n"

definition is_ascii :: "string \<Rightarrow> bool" where
  "is_ascii s = list_all (\<lambda>c. \<not> digit7 c) s"

text \<open>
  \<^verbatim>\<open>int(x)\<close> as the program calls it, on the text of an element: \<^verbatim>\<open>int(None)\<close> raises
  \<^verbatim>\<open>TypeError\<close>; a text that is not an integer literal raises \<^verbatim>\<open>ValueError\<close>, and so
  does a literal with more digits (underscores not counted, leading zeros counted) than
  the limit allows.
\<close>

definition py_int :: "interpreter \<Rightarrow> string option \<Rightarrow> error + int" where
  "py_int I t =
     (case t of
        None \<Rightarrow> Inl TypeError
      | Some s \<Rightarrow>
          if is_ascii s then
            (case ascii_int s of
               None \<Rightarrow> Inl ValueError
             | Some i \<Rightarrow>
                 if over_limit I (length (filter is_digit s)) then Inl ValueError else Inr i)
          else
            (case int_of_unicode I s of
               None \<Rightarrow> Inl ValueError
             | Some i \<Rightarrow> Inr i))"

text \<open>\<^verbatim>\<open>str(i)\<close>: the decimal digits without leading zeros, after a minus sign when
  \<open>i\<close> is negative; \<^verbatim>\<open>ValueError\<close> when the number of digits is over the limit.\<close>

definition digit_char :: "nat \<Rightarrow> char" where
  "digit_char d = ''0123456789'' ! d"

fun digits :: "nat \<Rightarrow> string" where
  "digits n =
     (if n < 10 then [digit_char n] else digits (n div 10) @ [digit_char (n mod 10)])"

definition decimal :: "int \<Rightarrow> string" where
  "decimal i = (if i < 0 then CHR ''-'' # digits (nat (- i)) else digits (nat i))"

definition printable :: "interpreter \<Rightarrow> int \<Rightarrow> bool" where
  "printable I i \<longleftrightarrow> \<not> over_limit I (length (digits (nat \<bar>i\<bar>)))"

definition py_str :: "interpreter \<Rightarrow> int \<Rightarrow> error + string" where
  "py_str I i = (if printable I i then Inr (decimal i) else Inl ValueError)"

subsection \<open>\<^verbatim>\<open>ElementTree.write\<close>\<close>

text \<open>
  The serializer of \<^verbatim>\<open>xml.etree.ElementTree\<close> for elements without attributes and
  tails, with \<^verbatim>\<open>short_empty_elements=True\<close> (the default): in character data
  \<open>&\<close>, \<open><\<close> and \<open>>\<close> are replaced by their entities; an element with neither text
  nor children is written as \<^verbatim>\<open><tag />\<close>. With \<^verbatim>\<open>xml_declaration=True\<close> the output
  starts with a declaration line that names the encoding as it was passed.
\<close>

fun escape_char :: "char \<Rightarrow> string" where
  "escape_char c =
     (if c = CHR ''&'' then ''&amp;''
      else if c = CHR ''<'' then ''&lt;''
      else if c = CHR ''>'' then ''&gt;''
      else [c])"

definition escape_cdata :: "string \<Rightarrow> string" where
  "escape_cdata t = concat (map escape_char t)"

fun render :: "element \<Rightarrow> string" where
  "render (Element tg tx cs) =
     ''<'' @ tg @
     (if (tx \<noteq> None \<and> tx \<noteq> Some []) \<or> cs \<noteq> [] then
        ''>'' @ (case tx of None \<Rightarrow> [] | Some t \<Rightarrow> escape_cdata t)
          @ concat (map render cs) @ ''</'' @ tg @ ''>''
      else '' />'')"

definition xml_declaration :: "string \<Rightarrow> string" where
  "xml_declaration enc =
     ''<?xml version='' @ [CHR 0x27] @ ''1.0'' @ [CHR 0x27] @ '' encoding='' @ [CHR 0x27]
       @ enc @ [CHR 0x27] @ ''?>'' @ [CHR 0x0A]"

subsection \<open>Reading back what \<^verbatim>\<open>ElementTree.write\<close> wrote\<close>

text \<open>
  What the first four lines of \<^verbatim>\<open>load\<close> (read the file in text mode, parse it) make of
  the text that \<^const>\<open>render\<close> wrote for a tree with the tags \<^verbatim>\<open>save\<close> uses:
  \<^item> a text with a control character other than tab, line feed and carriage return, or
    with one of the code points U+FFFE and U+FFFF (in UTF-8 the bytes EF BF BE and
    EF BF BF), is not well-formed XML: \<^verbatim>\<open>ParseError\<close>;
  \<^item> a carriage return, alone or before a line feed, comes back as one line feed;
  \<^item> an element written without character data comes back with the text \<^verbatim>\<open>None\<close>,
    also when its text was the empty string;
  \<^item> everything else comes back as it was.
\<close>

definition xml_char :: "char \<Rightarrow> bool" where
  "xml_char c \<longleftrightarrow> c = CHR 0x09 \<or> c = CHR 0x0A \<or> c = CHR 0x0D \<or> CHR 0x20 \<le> c"

fun has_nonchar :: "string \<Rightarrow> bool" where
  "has_nonchar (a # b # c # cs) =
     ((a = CHR 0xEF \<and> b = CHR 0xBF \<and> (c = CHR 0xBE \<or> c = CHR 0xBF))
      \<or> has_nonchar (b # c # cs))"
| "has_nonchar cs = False"

definition xml_text :: "string \<Rightarrow> bool" where
  "xml_text t \<longleftrightarrow> list_all xml_char t \<and> \<not> has_nonchar t"

fun normalize_newlines :: "string \<Rightarrow> string" where
  "normalize_newlines [] = []"
| "normalize_newlines [c] = (if c = CHR 0x0D then [CHR 0x0A] else [c])"
| "normalize_newlines (c # d # cs) =
     (if c = CHR 0x0D \<and> d = CHR 0x0A then CHR 0x0A # normalize_newlines cs
      else if c = CHR 0x0D then CHR 0x0A # normalize_newlines (d # cs)
      else c # normalize_newlines (d # cs))"

definition reread_text :: "string option \<Rightarrow> error + string option" where
  "reread_text tx =
     (case tx of
        None \<Rightarrow> Inr None
      | Some t \<Rightarrow>
          if \<not> xml_text t then Inl ParseError
          else if t = [] then Inr None
          else Inr (Some (normalize_newlines t)))"

fun reread :: "element \<Rightarrow> error + element"
  and reread_all :: "element list \<Rightarrow> error + element list" where
  "reread (Element tg tx cs) =
     (case reread_text tx of
        Inl err \<Rightarrow> Inl err
      | Inr tx' \<Rightarrow>
          (case reread_all cs of
             Inl err \<Rightarrow> Inl err
           | Inr cs' \<Rightarrow> Inr (Element tg tx' cs')))"
| "reread_all [] = Inr []"
| "reread_all (c # cs) =
     (case reread c of
        Inl err \<Rightarrow> Inl err
      | Inr c' \<Rightarrow>
          (case reread_all cs of
             Inl err \<Rightarrow> Inl err
           | Inr cs' \<Rightarrow> Inr (c' # cs')))"

text \<open>A text is portable when the file carries it unchanged: it is well-formed
  character data and holds no carriage return.\<close>

definition portable :: "string \<Rightarrow> bool" where
  "portable t \<longleftrightarrow> xml_text t \<and> CHR 0x0D \<notin> set t"

section \<open>\<^verbatim>\<open>Staff.load\<close>\<close>

text \<open>
  \<^verbatim>\<open>
  def load(self, filename):
      with open(filename, "r", encoding="utf8") as fin:
          xml = fin.read()
      parser = ET.XMLParser(encoding="utf8")
      tree = ET.fromstring(xml, parser=parser)
      self.products = []
      for product_element in tree:
          name, market, count = None, None, None
          for element in product_element:
              if element.tag == "name":
                  name = element.text
              elif element.tag == "market":
                  market = element.text
              elif element.tag == "count":
                  count = int(element.text)
              if name is not None and market is not None and count is not None:
                  self.products.append(Product(name=name, market=market, count=count))
  \<close>
  The first four lines touch nothing of the \<^verbatim>\<open>Staff\<close> object: they either raise (the
  file cannot be read, or its text is not well-formed XML) or bind \<^verbatim>\<open>tree\<close>. Their
  outcome is the input of the model: \<open>Inl\<close> the exception, or \<open>Inr\<close> the root element.
  From the assignment \<^verbatim>\<open>self.products = []\<close> on, the list of the object is the
  accumulator of the two loops, so an exception inside the loops leaves the object with
  what has been appended so far.
\<close>

type_synonym fields = "string option \<times> string option \<times> int option"

text \<open>The \<^verbatim>\<open>if/elif\<close> chain on one child element: the new values of the three local
  variables, or the exception of \<^verbatim>\<open>int\<close>.\<close>

definition read_element :: "interpreter \<Rightarrow> element \<Rightarrow> fields \<Rightarrow> error + fields" where
  "read_element I e f =
     (case f of (nm, mk, ct) \<Rightarrow>
        if tag e = ''name'' then Inr (text_of e, mk, ct)
        else if tag e = ''market'' then Inr (nm, text_of e, ct)
        else if tag e = ''count'' then
          (case py_int I (text_of e) of Inl err \<Rightarrow> Inl err | Inr i \<Rightarrow> Inr (nm, mk, Some i))
        else Inr (nm, mk, ct))"

text \<open>The last \<^verbatim>\<open>if\<close> of the inner loop body, which runs after every child element.\<close>

fun admit :: "fields \<Rightarrow> product list \<Rightarrow> product list" where
  "admit (Some nm, Some mk, Some ct) ps = ps @ [\<lparr>name = nm, market = mk, count = ct\<rparr>]"
| "admit f ps = ps"

fun scan_children ::
  "interpreter \<Rightarrow> element list \<Rightarrow> fields \<Rightarrow> product list \<Rightarrow> error option \<times> product list" where
  "scan_children I [] f ps = (None, ps)"
| "scan_children I (e # es) f ps =
     (case read_element I e f of
        Inl err \<Rightarrow> (Some err, ps)
      | Inr f' \<Rightarrow> scan_children I es f' (admit f' ps))"

fun scan_products ::
  "interpreter \<Rightarrow> element list \<Rightarrow> product list \<Rightarrow> error option \<times> product list" where
  "scan_products I [] ps = (None, ps)"
| "scan_products I (pe # pes) ps =
     (case scan_children I (children pe) (None, None, None) ps of
        (Some err, ps') \<Rightarrow> (Some err, ps')
      | (None, ps') \<Rightarrow> scan_products I pes ps')"

definition load :: "interpreter \<Rightarrow> error + element \<Rightarrow> staff \<Rightarrow> error option \<times> staff" where
  "load I src s =
     (case src of
        Inl err \<Rightarrow> (Some err, s)
      | Inr tree \<Rightarrow>
          (case scan_products I (children tree) [] of (r, ps) \<Rightarrow> (r, s\<lparr>products := ps\<rparr>)))"

text \<open>The records that one product element contributes when its scan raises nothing.\<close>

definition product_records :: "interpreter \<Rightarrow> element \<Rightarrow> product list" where
  "product_records I pe = snd (scan_children I (children pe) (None, None, None) [])"

section \<open>\<^verbatim>\<open>Staff.save\<close>\<close>

text \<open>
  \<^verbatim>\<open>
  def save(self, filename):
      root = ET.Element("products")
      for product in self.products:
          product_element = ET.Element("product")
          name_element = ET.SubElement(product_element, "name")
          name_element.text = product.name
          market_element = ET.SubElement(product_element, "market")
          market_element.text = product.market
          count_element = ET.SubElement(product_element, "count")
          count_element.text = str(product.count)
          root.append(product_element)
      tree = ET.ElementTree(root)
      with open(filename, "wb") as fout:
          tree.write(fout, encoding="utf8", xml_declaration=True)
  \<close>
  \<^verbatim>\<open>SubElement\<close> appends a new child to its parent and returns it; the text is then
  set on that child, which nothing else refers to, so the model sets the text before it
  appends. When \<^verbatim>\<open>str\<close> raises, the exception leaves \<^verbatim>\<open>save\<close> before the file is
  opened. The Boolean input says whether \<^verbatim>\<open>open\<close> succeeds; the result is the
  exception or the text written to the file, with the state of the object.
\<close>

definition new_element :: "string \<Rightarrow> element" where
  "new_element tg = Element tg None []"

definition with_text :: "element \<Rightarrow> string \<Rightarrow> element" where
  "with_text e t = Element (tag e) (Some t) (children e)"

definition append_child :: "element \<Rightarrow> element \<Rightarrow> element" where
  "append_child parent child =
     Element (tag parent) (text_of parent) (children parent @ [child])"

definition product_element :: "interpreter \<Rightarrow> product \<Rightarrow> error + element" where
  "product_element I p =
     (let e0 = new_element ''product'';
          e1 = append_child e0 (with_text (new_element ''name'') (name p));
          e2 = append_child e1 (with_text (new_element ''market'') (market p))
      in case py_str I (count p) of
           Inl err \<Rightarrow> Inl err
         | Inr t \<Rightarrow> Inr (append_child e2 (with_text (new_element ''count'') t)))"

fun save_loop :: "interpreter \<Rightarrow> product list \<Rightarrow> element \<Rightarrow> error + element" where
  "save_loop I [] root = Inr root"
| "save_loop I (p # ps) root =
     (case product_element I p of
        Inl err \<Rightarrow> Inl err
      | Inr pe \<Rightarrow> save_loop I ps (append_child root pe))"

definition save_tree :: "interpreter \<Rightarrow> product list \<Rightarrow> error + element" where
  "save_tree I ps = save_loop I ps (new_element ''products'')"

definition save :: "interpreter \<Rightarrow> bool \<Rightarrow> staff \<Rightarrow> (error + string) \<times> staff" where
  "save I writable s =
     (case save_tree I (products s) of
        Inl err \<Rightarrow> (Inl err, s)
      | Inr root \<Rightarrow>
          if writable then (Inr (xml_declaration ''utf8'' @ render root), s)
          else (Inl OSError, s))"

text \<open>
  A fresh catalog is created, the catalog \<open>s\<close> is saved, and the file that was written
  is loaded into the fresh catalog: the exception raised on the way, if any, and the
  fresh catalog afterwards.
\<close>

definition save_then_load :: "interpreter \<Rightarrow> staff \<Rightarrow> error option \<times> staff" where
  "save_then_load I s =
     (case save_tree I (products s) of
        Inl err \<Rightarrow> (Some err, \<lparr>products = []\<rparr>)
      | Inr root \<Rightarrow> load I (reread root) \<lparr>products = []\<rparr>)"

section \<open>The document of the specification\<close>

text \<open>
  Section 6 of the specification, as a tree: a root \<^verbatim>\<open>products\<close> with one \<^verbatim>\<open>product\<close>
  child per record, in order, each holding a \<^verbatim>\<open>name\<close>, a \<^verbatim>\<open>market\<close> and a \<^verbatim>\<open>count\<close>
  element in this order, the count as the decimal text of the integer.
\<close>

definition field_element :: "string \<Rightarrow> string \<Rightarrow> element" where
  "field_element tg t = Element tg (Some t) []"

definition grammar_product :: "product \<Rightarrow> element" where
  "grammar_product p = Element ''product'' None
     [field_element ''name'' (name p), field_element ''market'' (market p),
      field_element ''count'' (decimal (count p))]"

definition grammar_document :: "product list \<Rightarrow> element" where
  "grammar_document ps = Element ''products'' None (map grammar_product ps)"

text \<open>The product element of a record with portable name and market, as it is read
  back.\<close>

definition reread_product :: "product \<Rightarrow> element" where
  "reread_product p = Element ''product'' None
     [Element ''name'' (if name p = [] then None else Some (name p)) [],
      Element ''market'' (if market p = [] then None else Some (market p)) [],
      Element ''count'' (Some (decimal (count p))) []]"


primrec character_data :: "string \<Rightarrow> string" where
  "character_data [] = []"
| "character_data (c # cs) =
     (if c = CHR ''&'' then CHR ''&'' # CHR ''a'' # CHR ''m'' # CHR ''p'' # CHR '';'' # character_data cs
      else if c = CHR ''<'' then CHR ''&'' # CHR ''l'' # CHR ''t'' # CHR '';'' # character_data cs
      else if c = CHR ''>'' then CHR ''&'' # CHR ''g'' # CHR ''t'' # CHR '';'' # character_data cs
      else c # character_data cs)"



text \<open>
  The text for the catalogs that section 6 does not cover: an element whose text is
  empty (an empty name or market, the root of an empty catalog) is in the short form
  \<^verbatim>\<open><tag />\<close>, and a negative count has its minus sign.
\<close>

definition field_text :: "string \<Rightarrow> string \<Rightarrow> string" where
  "field_text tg t =
     (if t = [] then ''<'' @ tg @ '' />''
      else ''<'' @ tg @ ''>'' @ character_data t @ ''</'' @ tg @ ''>'')"



section \<open>Documents with a count that is not an integer\<close>

text \<open>
  A child element is an offending count when its tag is \<^verbatim>\<open>count\<close> and \<^verbatim>\<open>int\<close> raises
  on its text. \<open>first_bad_count\<close> is the first one in document order, \<open>count_error\<close>
  the exception that belongs to it, and \<open>cut_document\<close> the document cut off just
  before it: the product elements before the one that holds it, then that product
  element with the children before the offending one.
\<close>

definition bad_count :: "interpreter \<Rightarrow> element \<Rightarrow> bool" where
  "bad_count I e \<longleftrightarrow> tag e = ''count'' \<and> isl (py_int I (text_of e))"

definition has_bad_count :: "interpreter \<Rightarrow> element \<Rightarrow> bool" where
  "has_bad_count I tree \<longleftrightarrow>
     list_ex (\<lambda>pe. list_ex (bad_count I) (children pe)) (children tree)"

fun first_bad_count :: "interpreter \<Rightarrow> element list \<Rightarrow> element option" where
  "first_bad_count I [] = None"
| "first_bad_count I (pe # pes) =
     (case find (bad_count I) (children pe) of
        Some c \<Rightarrow> Some c
      | None \<Rightarrow> first_bad_count I pes)"

definition count_error :: "element \<Rightarrow> error" where
  "count_error c = (if text_of c = None then TypeError else ValueError)"

definition cut_children :: "interpreter \<Rightarrow> element list \<Rightarrow> element list" where
  "cut_children I es = takeWhile (\<lambda>e. \<not> bad_count I e) es"

fun cut_products :: "interpreter \<Rightarrow> element list \<Rightarrow> element list" where
  "cut_products I [] = []"
| "cut_products I (pe # pes) =
     (if list_ex (bad_count I) (children pe)
      then [Element (tag pe) (text_of pe) (cut_children I (children pe))]
      else pe # cut_products I pes)"

definition cut_document :: "interpreter \<Rightarrow> element \<Rightarrow> element" where
  "cut_document I tree = Element (tag tree) (text_of tree) (cut_products I (children tree))"

section \<open>Concrete interpreters, catalogs and documents\<close>

text \<open>
  An interpreter with the limit of 4300 digits that Python starts with. The inputs
  below are ASCII, where the readings of other scripts are not consulted; this
  interpreter reads no integer from them.
\<close>

definition ascii_interpreter :: interpreter where
  "ascii_interpreter = \<lparr>max_str_digits = 4300, int_of_unicode = (\<lambda>s. None)\<rparr>"

definition milk_staff :: staff where
  "milk_staff = \<lparr>products = [\<lparr>name = ''Milk'', market = ''Lidl'', count = 3\<rparr>]\<rparr>"

definition empty_market_staff :: staff where
  "empty_market_staff = \<lparr>products = [\<lparr>name = ''Milk'', market = [], count = 3\<rparr>]\<rparr>"



definition scenario_calls :: "(string \<times> string \<times> int) list" where
  "scenario_calls =
     [(''Bread'', ''Lidl'', 3), (''Apple'', ''Aldi'', 5), (''Bread'', ''Aldi'', 4),
      (''Apple'', ''Lidl'', 0)]"

text \<open>Three products; the count of the second one is the text \<^verbatim>\<open>abc\<close>.\<close>

definition malformed_count_doc :: element where
  "malformed_count_doc = Element ''products'' None
     [Element ''product'' None
        [field_element ''name'' ''Apple'', field_element ''market'' ''Aldi'',
         field_element ''count'' ''5''],
      Element ''product'' None
        [field_element ''name'' ''Kiwi'', field_element ''market'' ''Lidl'',
         field_element ''count'' ''abc''],
      Element ''product'' None
        [field_element ''name'' ''Pear'', field_element ''market'' ''Aldi'',
         field_element ''count'' ''7'']]"

text \<open>Two products; the count element of the second one is empty, \<^verbatim>\<open><count />\<close>, and
  comes first among its children.\<close>

definition empty_count_doc :: element where
  "empty_count_doc = Element ''products'' None
     [Element ''product'' None
        [field_element ''name'' ''Apple'', field_element ''market'' ''Aldi'',
         field_element ''count'' ''5''],
      Element ''product'' None
        [Element ''count'' None [], field_element ''name'' ''Kiwi'',
         field_element ''market'' ''Lidl'']]"

text \<open>Two products that are not in the order of their names; the second one lists its
  fields in another order.\<close>

definition unsorted_doc :: element where
  "unsorted_doc = Element ''products'' None
     [Element ''product'' None
        [field_element ''name'' ''Bread'', field_element ''market'' ''Lidl'',
         field_element ''count'' ''3''],
      Element ''product'' None
        [field_element ''market'' ''Aldi'', field_element ''count'' ''5'',
         field_element ''name'' ''Apple'']]"

text \<open>Three products: the first has an empty \<^verbatim>\<open>note\<close> child after its three fields, the
  second has no \<^verbatim>\<open>market\<close>, the third has exactly the three fields.\<close>

definition duplicated_doc :: element where
  "duplicated_doc = Element ''products'' None
     [Element ''product'' None
        [field_element ''name'' ''Milk'', field_element ''market'' ''Lidl'',
         field_element ''count'' ''3'', Element ''note'' None []],
      Element ''product'' None
        [field_element ''name'' ''Kiwi'', field_element ''count'' ''2''],
      Element ''product'' None
        [field_element ''name'' ''Pear'', field_element ''market'' ''Aldi'',
         field_element ''count'' ''7'']]"

section \<open>Evaluation and auxiliary facts\<close>

text \<open>The equation of \<^const>\<open>digits\<close> rewrites its own right-hand side, so it is applied
  by hand.\<close>

declare digits.simps [simp del]

lemmas py_int_eval =
  py_int_def is_ascii_def ascii_int_def over_limit_def strip_def is_space_def
  read_unsigned_def is_digit_def digit_value_def

lemmas load_eval = load_def read_element_def field_element_def py_int_eval

lemmas py_str_eval =
  py_str_def printable_def decimal_def digits.simps digit_char_def

lemmas save_eval =
  save_tree_def product_element_def new_element_def with_text_def append_child_def
  py_str_eval escape_cdata_def

lemma select_loop_filter:
  "select_loop ps nm result = result @ filter (\<lambda>p. name p = nm) ps"
  by (induction ps arbitrary: result) simp_all

section \<open>\<^verbatim>\<open>add\<close> and \<^verbatim>\<open>select\<close>\<close>

text \<open>
  C4. For every catalog state, name, market and negative count, \<^verbatim>\<open>add\<close> raises
  \<open>IllegalCount\<close> carrying that count, and the state is the one before the call: the
  records are unchanged in contents and in length.
\<close>

theorem add_negative_count_rejected:
  assumes "ct < 0"
  shows "add nm mk ct s = (Some (IllegalCount ct), s) \<and>
         products (snd (add nm mk ct s)) = products s \<and>
         length (products (snd (add nm mk ct s))) = length (products s)"
  using assms by (simp add: add_def)

theorem add_negative_count_rejected_witness:
  "(- 1 :: int) < 0 \<and>
   add ''Bread'' ''Lidl'' (- 1) milk_staff = (Some (IllegalCount (- 1)), milk_staff) \<and>
   products (snd (add ''Bread'' ''Lidl'' (- 1) milk_staff)) =
     [\<lparr>name = ''Milk'', market = ''Lidl'', count = 3\<rparr>]"
proof -
  have h: "(- 1 :: int) < 0" by simp
  from add_negative_count_rejected [OF h, of "''Bread''" "''Lidl''" milk_staff] h
  show ?thesis by (simp add: milk_staff_def)
qed

text \<open>
  C6. For every catalog state and every query name, \<^verbatim>\<open>select\<close> returns exactly the
  records whose name equals the query (equality of texts, so the match is exact and
  case-sensitive), in their order in the catalog; when no record has that name the
  result is the empty list, and no exception is raised; the state after the call is
  the state before it.
\<close>

theorem select_matching_records:
  "select nm s = (filter (\<lambda>p. name p = nm) (products s), s) \<and>
   ((\<forall>p \<in> set (products s). name p \<noteq> nm) \<longrightarrow> fst (select nm s) = [])"
  by (simp add: select_def select_loop_filter)

theorem select_matching_records_witness:
  "select ''Apple'' (snd (add_all scenario_calls \<lparr>products = []\<rparr>)) =
     ([\<lparr>name = ''Apple'', market = ''Aldi'', count = 5\<rparr>,
       \<lparr>name = ''Apple'', market = ''Lidl'', count = 0\<rparr>],
      snd (add_all scenario_calls \<lparr>products = []\<rparr>)) \<and>
   fst (select ''Kiwi'' (snd (add_all scenario_calls \<lparr>products = []\<rparr>))) = [] \<and>
   fst (select ''apple'' (snd (add_all scenario_calls \<lparr>products = []\<rparr>))) = []"
  using select_matching_records [of "''Apple''" "snd (add_all scenario_calls \<lparr>products = []\<rparr>)"]
    select_matching_records [of "''Kiwi''" "snd (add_all scenario_calls \<lparr>products = []\<rparr>)"]
    select_matching_records [of "''apple''" "snd (add_all scenario_calls \<lparr>products = []\<rparr>)"]
  by (simp add: scenario_calls_def add_def)

subsection \<open>The order after a sequence of \<^verbatim>\<open>add\<close> calls\<close>

lemma add_all_None_step:
  "fst (add_all ((nm, mk, ct) # calls) s) = None \<longleftrightarrow>
     0 \<le> ct \<and> fst (add_all calls (snd (add nm mk ct s))) = None"
  by (simp add: add_def)

lemma add_all_step_state:
  "0 \<le> ct \<Longrightarrow>
     snd (add_all ((nm, mk, ct) # calls) s) = snd (add_all calls (snd (add nm mk ct s)))"
  by (simp add: add_def)

lemma add_products:
  "0 \<le> ct \<Longrightarrow>
     products (snd (add nm mk ct s)) = sort_key name (products s @ [record_of (nm, mk, ct)])"
  by (simp add: add_def record_of_def)

text \<open>Every prefix of a run without exception is a run without exception.\<close>

lemma add_all_take_None:
  "fst (add_all calls s) = None \<Longrightarrow> fst (add_all (take n calls) s) = None"
proof (induction calls arbitrary: s n)
  case Nil
  then show ?case by simp
next
  case (Cons c calls)
  obtain nm mk ct where c: "c = (nm, mk, ct)" by (cases c) auto
  show ?case
  proof (cases n)
    case 0
    then show ?thesis by simp
  next
    case (Suc m)
    from Cons.prems c have ok: "0 \<le> ct"
      and rest: "fst (add_all calls (snd (add nm mk ct s))) = None"
      by (simp_all only: add_all_None_step)
    from Cons.IH [OF rest]
    have "fst (add_all (take m calls) (snd (add nm mk ct s))) = None" .
    with ok show ?thesis
      unfolding Suc c take_Suc_Cons by (simp only: add_all_None_step simp_thms)
  qed
qed

lemma add_all_sorted:
  "fst (add_all calls s) = None \<Longrightarrow> calls \<noteq> [] \<Longrightarrow>
     sorted (map name (products (snd (add_all calls s))))"
proof (induction calls arbitrary: s)
  case Nil
  then show ?case by simp
next
  case (Cons c calls)
  obtain nm mk ct where c: "c = (nm, mk, ct)" by (cases c) auto
  from Cons.prems(1) c have ok: "0 \<le> ct"
    and rest: "fst (add_all calls (snd (add nm mk ct s))) = None"
    by (simp_all only: add_all_None_step)
  show ?case
  proof (cases "calls = []")
    case True
    with ok c show ?thesis by (simp add: add_def)
  next
    case False
    from Cons.IH [OF rest False] ok c show ?thesis
      by (simp only: add_all_step_state)
  qed
qed

lemma add_all_stable:
  "fst (add_all calls s) = None \<Longrightarrow>
     filter (\<lambda>p. name p = k) (products (snd (add_all calls s))) =
     filter (\<lambda>p. name p = k) (products s @ map record_of calls)"
proof (induction calls arbitrary: s)
  case Nil
  then show ?case by simp
next
  case (Cons c calls)
  obtain nm mk ct where c: "c = (nm, mk, ct)" by (cases c) auto
  from Cons.prems(1) c have ok: "0 \<le> ct"
    and rest: "fst (add_all calls (snd (add nm mk ct s))) = None"
    by (simp_all only: add_all_None_step)
  have "filter (\<lambda>p. name p = k) (products (snd (add_all (c # calls) s))) =
        filter (\<lambda>p. name p = k) (products (snd (add nm mk ct s)) @ map record_of calls)"
    using Cons.IH [OF rest] ok c by (simp only: add_all_step_state)
  also have "\<dots> = filter (\<lambda>p. name p = k) (products s @ map record_of (c # calls))"
    using ok c by (simp add: add_products sort_key_stable del: sort_key_simps)
  finally show ?case .
qed

text \<open>
  C3. Take any catalog and any sequence of \<^verbatim>\<open>add\<close> calls that all succeed. After each
  call (after the first \<open>n\<close> calls, for every \<open>n\<close> from 1 to the number of calls) the
  names of the records are non-decreasing in the lexicographic order of texts, and for
  every name \<open>k\<close> the records with that name are the ones the catalog held at the start,
  in their order there, followed by the ones added, in the order of the calls: records
  with equal names keep their insertion order. The catalog at the start need not even
  be sorted, since \<^verbatim>\<open>add\<close> sorts the whole list.
\<close>

theorem add_sequence_sorted_stable:
  assumes "fst (add_all calls s) = None" and "0 < n" and "n \<le> length calls"
  shows "sorted (map name (products (snd (add_all (take n calls) s)))) \<and>
         filter (\<lambda>p. name p = k) (products (snd (add_all (take n calls) s))) =
           filter (\<lambda>p. name p = k) (products s @ map record_of (take n calls))"
proof
  have ok: "fst (add_all (take n calls) s) = None"
    using assms(1) by (rule add_all_take_None)
  from assms(2,3) have ne: "take n calls \<noteq> []" by auto
  show "sorted (map name (products (snd (add_all (take n calls) s))))"
    using ok ne by (rule add_all_sorted)
  show "filter (\<lambda>p. name p = k) (products (snd (add_all (take n calls) s))) =
        filter (\<lambda>p. name p = k) (products s @ map record_of (take n calls))"
    using ok by (rule add_all_stable)
qed

theorem add_sequence_sorted_stable_witness:
  "fst (add_all scenario_calls milk_staff) = None \<and> (0::nat) < 3 \<and>
   3 \<le> length scenario_calls \<and>
   products (snd (add_all (take 3 scenario_calls) milk_staff)) =
     [\<lparr>name = ''Apple'', market = ''Aldi'', count = 5\<rparr>,
      \<lparr>name = ''Bread'', market = ''Lidl'', count = 3\<rparr>,
      \<lparr>name = ''Bread'', market = ''Aldi'', count = 4\<rparr>,
      \<lparr>name = ''Milk'', market = ''Lidl'', count = 3\<rparr>] \<and>
   sorted (map name (products (snd (add_all (take 3 scenario_calls) milk_staff)))) \<and>
   filter (\<lambda>p. name p = ''Bread'')
       (products (snd (add_all (take 3 scenario_calls) milk_staff))) =
     [\<lparr>name = ''Bread'', market = ''Lidl'', count = 3\<rparr>,
      \<lparr>name = ''Bread'', market = ''Aldi'', count = 4\<rparr>]"
proof -
  have h: "fst (add_all scenario_calls milk_staff) = None"
    by (simp add: scenario_calls_def milk_staff_def add_def)
  have n: "(0::nat) < 3" "3 \<le> length scenario_calls"
    by (simp_all add: scenario_calls_def)
  from add_sequence_sorted_stable [OF h n, of "''Bread''"] h n show ?thesis
    by (simp add: scenario_calls_def milk_staff_def add_def record_of_def)
qed

section \<open>The conversions between integers and text\<close>

lemma digit_cases:
  "d < 10 \<Longrightarrow>
     d = 0 \<or> d = 1 \<or> d = 2 \<or> d = 3 \<or> d = 4 \<or> d = 5 \<or> d = 6 \<or> d = 7 \<or> d = 8 \<or> d = (9::nat)"
  by arith

lemma digit_char_props:
  assumes "d < 10"
  shows "is_digit (digit_char d)" and "digit_value (digit_char d) = d"
  using digit_cases [OF assms]
  by (auto simp: digit_char_def is_digit_def digit_value_def)

lemma digit_char_zero: "d < 10 \<Longrightarrow> digit_char d = CHR ''0'' \<longleftrightarrow> d = 0"
  using digit_cases [of d] by (auto simp: digit_char_def)

lemma read_digits_all:
  "list_all is_digit ds \<Longrightarrow>
     read_digits acc ds = Some (foldl (\<lambda>a c. 10 * a + digit_value c) acc ds)"
  by (induction acc ds rule: read_digits.induct) simp_all

lemma digits_not_Nil: "digits n \<noteq> []"
  by (subst digits.simps) simp

lemma digits_all: "list_all is_digit (digits n)"
proof (induction n rule: digits.induct)
  case (1 n)
  show ?case
  proof (cases "n < 10")
    case True
    then show ?thesis by (subst digits.simps) (simp add: digit_char_props)
  next
    case False
    with 1 show ?thesis by (subst digits.simps) (simp add: digit_char_props)
  qed
qed

text \<open>The text \<open>digits n\<close> is the decimal form of \<open>n\<close>: its characters are digits, their
  value is \<open>n\<close>, and it starts with the digit zero for \<open>n = 0\<close> only.\<close>

lemma digits_value: "foldl (\<lambda>a c. 10 * a + digit_value c) 0 (digits n) = n"
proof (induction n rule: digits.induct)
  case (1 n)
  show ?case
  proof (cases "n < 10")
    case True
    then show ?thesis by (subst digits.simps) (simp add: digit_char_props)
  next
    case False
    with 1 show ?thesis by (subst digits.simps) (simp add: digit_char_props)
  qed
qed

lemma digits_no_leading_zero: "0 < n \<Longrightarrow> hd (digits n) \<noteq> CHR ''0''"
proof (induction n rule: digits.induct)
  case (1 n)
  show ?case
  proof (cases "n < 10")
    case True
    with "1.prems" show ?thesis by (subst digits.simps) (simp add: digit_char_zero)
  next
    case False
    then have "0 < n div 10" by simp
    with 1 False have "hd (digits (n div 10)) \<noteq> CHR ''0''" by simp
    with False show ?thesis by (subst digits.simps) (simp add: digits_not_Nil)
  qed
qed


lemma digits_shorter: "n < 10 ^ k \<Longrightarrow> 0 < k \<Longrightarrow> length (digits n) \<le> k"
proof (induction k arbitrary: n)
  case 0
  then show ?case by simp
next
  case (Suc k)
  show ?case
  proof (cases "n < 10")
    case True
    then show ?thesis by (subst digits.simps) simp
  next
    case False
    define m :: nat where "m = 10 ^ k"
    from Suc.prems have "n < 10 * m" by (simp add: m_def)
    then have "n div 10 < m" by arith
    then have "n div 10 < 10 ^ k" by (simp add: m_def)
    moreover from False this have "0 < k" by (cases k) auto
    ultimately have "length (digits (n div 10)) \<le> k" by (rule Suc.IH)
    with False show ?thesis by (subst digits.simps) simp
  qed
qed

lemma read_unsigned_digits: "read_unsigned (digits n) = Some n"
proof (cases "digits n")
  case Nil
  with digits_not_Nil show ?thesis by simp
next
  case (Cons c cs)
  from digits_all [of n] Cons have c: "is_digit c" and cs: "list_all is_digit cs"
    by simp_all
  from digits_value [of n] Cons
  have "foldl (\<lambda>a c. 10 * a + digit_value c) (digit_value c) cs = n" by simp
  with c cs Cons show ?thesis by (simp add: read_unsigned_def read_digits_all)
qed

lemma is_digit_not_space: "is_digit c \<Longrightarrow> \<not> is_space c"
  by (auto simp: is_digit_def is_space_def)

lemma is_digit_not_sign: "is_digit c \<Longrightarrow> c \<noteq> CHR ''-'' \<and> c \<noteq> CHR ''+''"
  by (auto simp: is_digit_def)

lemma is_digit_ascii: "is_digit c \<Longrightarrow> \<not> digit7 c"
  by (auto simp: is_digit_def)


lemma strip_id:
  assumes "s \<noteq> []" and "\<not> is_space (hd s)" and "\<not> is_space (last s)"
  shows "strip s = s"
proof -
  from assms have 1: "dropWhile is_space s = s" by (cases s) simp_all
  from assms have "dropWhile is_space (rev s) = rev s"
    by (cases s rule: rev_cases) simp_all
  with 1 show ?thesis by (simp add: strip_def)
qed

lemma digits_hd: "is_digit (hd (digits n))"
  using digits_all [of n] digits_not_Nil [of n] by (cases "digits n") simp_all

lemma digits_last: "is_digit (last (digits n))"
  using digits_all [of n] digits_not_Nil [of n] by (simp add: list_all_iff)

lemma decimal_not_Nil: "decimal i \<noteq> []"
  by (simp add: decimal_def digits_not_Nil)

lemma strip_decimal: "strip (decimal i) = decimal i"
proof (rule strip_id)
  show "decimal i \<noteq> []" by (rule decimal_not_Nil)
  show "\<not> is_space (hd (decimal i))"
    using digits_hd [of "nat i"] by (auto simp: decimal_def is_space_def dest: is_digit_not_space)
  show "\<not> is_space (last (decimal i))"
    using digits_last by (auto simp: decimal_def digits_not_Nil dest: is_digit_not_space)
qed

lemma ascii_int_decimal: "ascii_int (decimal i) = Some i"
proof (cases "i < 0")
  case True
  then show ?thesis
    by (simp add: ascii_int_def strip_decimal) (simp add: decimal_def read_unsigned_digits)
next
  case False
  obtain c cs where d: "digits (nat i) = c # cs"
    using digits_not_Nil [of "nat i"] by (cases "digits (nat i)") auto
  with digits_hd [of "nat i"] have "is_digit c" by simp
  then have "c \<noteq> CHR ''-''" and "c \<noteq> CHR ''+''"
    using is_digit_not_sign by blast+
  moreover have "read_unsigned (c # cs) = Some (nat i)"
    using read_unsigned_digits [of "nat i"] d by simp
  ultimately show ?thesis using False d
    by (simp add: ascii_int_def strip_decimal) (simp add: decimal_def)
qed

lemma is_ascii_digits: "is_ascii (digits n)"
  using digits_all [of n] by (auto simp: is_ascii_def list_all_iff dest: is_digit_ascii)

lemma is_ascii_decimal: "is_ascii (decimal i)"
  using is_ascii_digits by (simp add: decimal_def is_ascii_def)

lemma filter_digits: "filter is_digit (digits n) = digits n"
  using digits_all [of n] by (simp add: list_all_iff)

lemma count_digits_decimal:
  "length (filter is_digit (decimal i)) = length (digits (nat \<bar>i\<bar>))"
proof (cases "i < 0")
  case True
  then have "nat \<bar>i\<bar> = nat (- i)" by simp
  with True show ?thesis by (simp add: decimal_def filter_digits is_digit_def)
next
  case False
  then have "nat \<bar>i\<bar> = nat i" by simp
  with False show ?thesis by (simp add: decimal_def filter_digits)
qed

text \<open>\<^verbatim>\<open>int\<close> reads the decimal text of \<open>i\<close> as \<open>i\<close>, unless \<open>i\<close> has more digits than
  the limit allows; then \<^verbatim>\<open>int\<close> raises on that text, as \<^verbatim>\<open>str\<close> raises on \<open>i\<close>.\<close>

lemma py_int_decimal:
  "py_int I (Some (decimal i)) = (if printable I i then Inr i else Inl ValueError)"
  by (simp add: py_int_def is_ascii_decimal ascii_int_decimal count_digits_decimal
      printable_def)

lemma py_int_py_str: "py_str I i = Inr t \<Longrightarrow> py_int I (Some t) = Inr i"
  by (auto simp: py_str_def py_int_decimal split: if_splits)

lemma py_str_printable: "printable I i \<Longrightarrow> py_str I i = Inr (decimal i)"
  by (simp add: py_str_def)

lemma py_str_error: "py_str I i = Inl err \<Longrightarrow> err = ValueError \<and> \<not> printable I i"
  by (auto simp: py_str_def split: if_splits)



lemma character_data_escape: "character_data t = escape_cdata t"
  by (induction t) (simp_all add: escape_cdata_def)



section \<open>\<^verbatim>\<open>load\<close>\<close>

subsection \<open>The two loops append to the list they are given\<close>

lemma admit_append: "admit f ps = ps @ admit f []"
  by (cases "(f, ps)" rule: admit.cases) simp_all

lemma scan_children_append:
  "scan_children I es f ps = (fst (scan_children I es f []), ps @ snd (scan_children I es f []))"
proof (induction es arbitrary: f ps)
  case Nil
  then show ?case by simp
next
  case (Cons e es)
  show ?case
  proof (cases "read_element I e f")
    case (Inl err)
    then show ?thesis by simp
  next
    case (Inr f')
    have "scan_children I (e # es) f ps = scan_children I es f' (admit f' ps)"
      using Inr by simp
    also have "\<dots> = (fst (scan_children I es f' []), admit f' ps @ snd (scan_children I es f' []))"
      by (rule Cons.IH)
    also have "admit f' ps = ps @ admit f' []"
      by (rule admit_append)
    finally have l: "scan_children I (e # es) f ps =
        (fst (scan_children I es f' []), ps @ admit f' [] @ snd (scan_children I es f' []))"
      by simp
    have "scan_children I (e # es) f [] = scan_children I es f' (admit f' [])"
      using Inr by simp
    also have "\<dots> = (fst (scan_children I es f' []), admit f' [] @ snd (scan_children I es f' []))"
      by (rule Cons.IH)
    finally show ?thesis using l by simp
  qed
qed

lemma scan_children_records:
  "scan_children I (children pe) (None, None, None) ps =
     (fst (scan_children I (children pe) (None, None, None) []), ps @ product_records I pe)"
  unfolding product_records_def by (rule scan_children_append)

lemma scan_products_success:
  "fst (scan_products I pes ps) = None \<Longrightarrow>
     snd (scan_products I pes ps) = ps @ concat (map (product_records I) pes)"
proof (induction pes arbitrary: ps)
  case Nil
  then show ?case by simp
next
  case (Cons pe pes)
  obtain r where r:
    "scan_children I (children pe) (None, None, None) ps = (r, ps @ product_records I pe)"
    using scan_children_records by blast
  show ?case
  proof (cases r)
    case None
    with r Cons.prems have "fst (scan_products I pes (ps @ product_records I pe)) = None"
      by simp
    from Cons.IH [OF this] r None show ?thesis by simp
  next
    case (Some err)
    with r Cons.prems show ?thesis by simp
  qed
qed

text \<open>
  C7. When \<^verbatim>\<open>load\<close> raises nothing, the records of the catalog afterwards are the
  records of the first product element, then those of the second, and so on in the
  order of the document, whatever the catalog held before; nothing sorts them. The
  witness loads a document whose names are in decreasing order into a catalog that
  holds a record: the result is the two records of the document in the order of the
  document, which is not sorted by name.
\<close>

theorem load_document_order:
  assumes "fst (load I (Inr tree) s) = None"
  shows "products (snd (load I (Inr tree) s)) = concat (map (product_records I) (children tree))"
proof -
  from assms have "fst (scan_products I (children tree) []) = None"
    by (simp add: load_def split: prod.splits)
  from scan_products_success [OF this] show ?thesis
    by (auto simp: load_def split: prod.splits)
qed

theorem load_document_order_witness:
  "fst (load ascii_interpreter (Inr unsorted_doc) milk_staff) = None \<and>
   products (snd (load ascii_interpreter (Inr unsorted_doc) milk_staff)) =
     [\<lparr>name = ''Bread'', market = ''Lidl'', count = 3\<rparr>,
      \<lparr>name = ''Apple'', market = ''Aldi'', count = 5\<rparr>] \<and>
   \<not> sorted (map name (products (snd (load ascii_interpreter (Inr unsorted_doc) milk_staff))))"
proof -
  have h: "fst (load ascii_interpreter (Inr unsorted_doc) milk_staff) = None"
    by (simp add: unsorted_doc_def load_eval)
  from load_document_order [OF h] h show ?thesis
    by (simp add: unsorted_doc_def product_records_def read_element_def field_element_def
        py_int_eval)
qed

subsection \<open>A count that is not an integer\<close>

lemma py_int_error:
  "py_int I t = Inl err \<Longrightarrow> err = (if t = None then TypeError else ValueError)"
  by (auto simp: py_int_def split: option.splits if_splits)

lemma read_element_error:
  "read_element I e f = Inl err \<Longrightarrow> bad_count I e \<and> err = count_error e"
  by (cases f)
    (auto simp: read_element_def bad_count_def count_error_def dest: py_int_error
      split: if_splits sum.splits)

lemma read_element_bad: "bad_count I e \<Longrightarrow> read_element I e f = Inl (count_error e)"
proof -
  assume b: "bad_count I e"
  then obtain err where "py_int I (text_of e) = Inl err"
    by (cases "py_int I (text_of e)") (auto simp: bad_count_def)
  with b have "read_element I e f = Inl err"
    by (cases f) (auto simp: read_element_def bad_count_def)
  with read_element_error show ?thesis by blast
qed

lemma scan_children_cut:
  "list_ex (bad_count I) es \<Longrightarrow>
     \<exists>c. find (bad_count I) es = Some c \<and> bad_count I c \<and>
       scan_children I es f ps =
         (Some (count_error c), snd (scan_children I (cut_children I es) f ps)) \<and>
       fst (scan_children I (cut_children I es) f ps) = None"
proof (induction es arbitrary: f ps)
  case Nil
  then show ?case by simp
next
  case (Cons e es)
  show ?case
  proof (cases "bad_count I e")
    case True
    with read_element_bad [OF True, of f] show ?thesis
      by (simp add: cut_children_def)
  next
    case False
    with Cons.prems have ex: "list_ex (bad_count I) es" by simp
    from False obtain f' where f': "read_element I e f = Inr f'"
      using read_element_error by (cases "read_element I e f") blast+
    from Cons.IH [OF ex, of f' "admit f' ps"] f' False show ?thesis
      by (simp add: cut_children_def)
  qed
qed

lemma scan_children_good:
  "\<not> list_ex (bad_count I) es \<Longrightarrow> fst (scan_children I es f ps) = None"
proof (induction es arbitrary: f ps)
  case Nil
  then show ?case by simp
next
  case (Cons e es)
  then have "\<not> bad_count I e" by simp
  then obtain f' where f': "read_element I e f = Inr f'"
    using read_element_error by (cases "read_element I e f") blast+
  with Cons show ?case by simp
qed

lemma find_None: "\<not> list_ex P xs \<Longrightarrow> find P xs = None"
  by (induction xs) simp_all

lemma scan_products_cut:
  "list_ex (\<lambda>pe. list_ex (bad_count I) (children pe)) pes \<Longrightarrow>
     \<exists>c. first_bad_count I pes = Some c \<and> bad_count I c \<and>
       scan_products I pes ps =
         (Some (count_error c), snd (scan_products I (cut_products I pes) ps)) \<and>
       fst (scan_products I (cut_products I pes) ps) = None"
proof (induction pes arbitrary: ps)
  case Nil
  then show ?case by simp
next
  case (Cons pe pes)
  show ?case
  proof (cases "list_ex (bad_count I) (children pe)")
    case True
    from scan_children_cut [OF True, of "(None, None, None)" ps]
    obtain c where c: "find (bad_count I) (children pe) = Some c" "bad_count I c"
      and sc: "scan_children I (children pe) (None, None, None) ps =
                 (Some (count_error c),
                  snd (scan_children I (cut_children I (children pe)) (None, None, None) ps))"
      and ok: "fst (scan_children I (cut_children I (children pe)) (None, None, None) ps) = None"
      by blast
    obtain ps' where ps':
      "scan_children I (cut_children I (children pe)) (None, None, None) ps = (None, ps')"
      using ok
      by (cases "scan_children I (cut_children I (children pe)) (None, None, None) ps") simp
    from c sc ps' True show ?thesis by simp
  next
    case False
    then have "fst (scan_children I (children pe) (None, None, None) ps) = None"
      by (rule scan_children_good)
    then obtain ps' where ps':
      "scan_children I (children pe) (None, None, None) ps = (None, ps')"
      by (cases "scan_children I (children pe) (None, None, None) ps") simp
    from Cons.prems False have "list_ex (\<lambda>pe. list_ex (bad_count I) (children pe)) pes"
      by simp
    from Cons.IH [OF this, of ps'] ps' False find_None [OF False] show ?thesis by simp
  qed
qed

text \<open>
  C1, as the code has it. When some child of some product element is a \<^verbatim>\<open>count\<close>
  on whose text \<^verbatim>\<open>int\<close> raises, there is a first such element \<open>c\<close> in document order,
  and \<^verbatim>\<open>load\<close> raises the exception of \<^verbatim>\<open>int\<close> on it: \<open>TypeError\<close> when \<open>c\<close> has no
  text, \<open>ValueError\<close> when it has. The catalog afterwards holds the records that the
  document yields before \<open>c\<close>, whatever it held before the call: they are what loading
  the document cut off just before \<open>c\<close> installs, and that load raises nothing.
\<close>

theorem load_bad_count_partial:
  assumes "has_bad_count I tree"
  shows "(\<exists>c. first_bad_count I (children tree) = Some c \<and> bad_count I c \<and>
            fst (load I (Inr tree) s) =
              Some (if text_of c = None then TypeError else ValueError)) \<and>
         load I (Inr (cut_document I tree)) s = (None, snd (load I (Inr tree) s)) \<and>
         products (snd (load I (Inr tree) s)) =
           concat (map (product_records I) (cut_products I (children tree)))"
proof -
  from assms have "list_ex (\<lambda>pe. list_ex (bad_count I) (children pe)) (children tree)"
    by (simp add: has_bad_count_def)
  from scan_products_cut [OF this, of "[]"]
  obtain c where c: "first_bad_count I (children tree) = Some c" "bad_count I c"
    and sp: "scan_products I (children tree) [] =
               (Some (count_error c), snd (scan_products I (cut_products I (children tree)) []))"
    and ok: "fst (scan_products I (cut_products I (children tree)) []) = None"
    by blast
  obtain ps where ps: "scan_products I (cut_products I (children tree)) [] = (None, ps)"
    using ok by (cases "scan_products I (cut_products I (children tree)) []") simp
  from scan_products_success [OF ok] ps
  have "ps = concat (map (product_records I) (cut_products I (children tree)))" by simp
  with c sp ps show ?thesis
    by (auto simp: load_def cut_document_def count_error_def)
qed

theorem load_bad_count_partial_witness:
  "has_bad_count ascii_interpreter malformed_count_doc \<and>
   first_bad_count ascii_interpreter (children malformed_count_doc) =
     Some (field_element ''count'' ''abc'') \<and>
   fst (load ascii_interpreter (Inr malformed_count_doc) milk_staff) = Some ValueError \<and>
   load ascii_interpreter (Inr (cut_document ascii_interpreter malformed_count_doc)) milk_staff =
     (None, \<lparr>products = [\<lparr>name = ''Apple'', market = ''Aldi'', count = 5\<rparr>]\<rparr>) \<and>
   products (snd (load ascii_interpreter (Inr malformed_count_doc) milk_staff)) =
     [\<lparr>name = ''Apple'', market = ''Aldi'', count = 5\<rparr>] \<and>
   has_bad_count ascii_interpreter empty_count_doc \<and>
   first_bad_count ascii_interpreter (children empty_count_doc) =
     Some (Element ''count'' None []) \<and>
   fst (load ascii_interpreter (Inr empty_count_doc) milk_staff) = Some TypeError \<and>
   products (snd (load ascii_interpreter (Inr empty_count_doc) milk_staff)) =
     [\<lparr>name = ''Apple'', market = ''Aldi'', count = 5\<rparr>]"
proof -
  have h: "has_bad_count ascii_interpreter malformed_count_doc"
    by (simp add: malformed_count_doc_def has_bad_count_def bad_count_def field_element_def
        py_int_eval)
  have h': "has_bad_count ascii_interpreter empty_count_doc"
    by (simp add: empty_count_doc_def has_bad_count_def bad_count_def field_element_def
        py_int_eval)
  from load_bad_count_partial [OF h, of milk_staff]
    load_bad_count_partial [OF h', of milk_staff] h h'
  show ?thesis
    by (simp add: malformed_count_doc_def empty_count_doc_def milk_staff_def bad_count_def
        load_eval)
qed

text \<open>
  C1, as the claim states it, fails: the catalog holds Milk, the document holds Apple
  with count \<^verbatim>\<open>5\<close>, then Kiwi with count \<^verbatim>\<open>abc\<close>, then Pear. The call raises
  \<open>ValueError\<close>, which is not the \<open>ParseError\<close> of the parser, and the catalog
  afterwards holds Apple alone: it is not the catalog before the call.
\<close>

theorem load_not_atomic_counterexample:
  "has_bad_count ascii_interpreter malformed_count_doc \<and>
   load ascii_interpreter (Inr malformed_count_doc) milk_staff =
     (Some ValueError, \<lparr>products = [\<lparr>name = ''Apple'', market = ''Aldi'', count = 5\<rparr>]\<rparr>) \<and>
   products milk_staff = [\<lparr>name = ''Milk'', market = ''Lidl'', count = 3\<rparr>] \<and>
   fst (load ascii_interpreter (Inr malformed_count_doc) milk_staff) \<noteq> Some ParseError \<and>
   products (snd (load ascii_interpreter (Inr malformed_count_doc) milk_staff)) \<noteq>
     products milk_staff"
  by (simp add: malformed_count_doc_def milk_staff_def has_bad_count_def bad_count_def
      load_eval)

text \<open>An exception before the loops (the file cannot be read, or its text is not
  well-formed XML) leaves the catalog as it was.\<close>

lemma load_unreadable_unchanged: "load I (Inl err) s = (Some err, s)"
  by (simp add: load_def)

text \<open>\<^verbatim>\<open>load\<close> raises in the loops exactly when the document has an offending count.\<close>

lemma load_succeeds_iff: "fst (load I (Inr tree) s) = None \<longleftrightarrow> \<not> has_bad_count I tree"
proof (cases "has_bad_count I tree")
  case True
  from load_bad_count_partial [OF True, of s] True show ?thesis by auto
next
  case False
  have "\<not> list_ex (\<lambda>pe. list_ex (bad_count I) (children pe)) pes \<Longrightarrow>
          fst (scan_products I pes ps) = None" for pes ps
  proof (induction pes arbitrary: ps)
    case Nil
    then show ?case by simp
  next
    case (Cons pe pes)
    then have "fst (scan_children I (children pe) (None, None, None) ps) = None"
      by (simp add: scan_children_good)
    then obtain ps' where "scan_children I (children pe) (None, None, None) ps = (None, ps')"
      by (cases "scan_children I (children pe) (None, None, None) ps") simp
    with Cons show ?case by simp
  qed
  from this [of "children tree" "[]"] False show ?thesis
    by (cases "scan_products I (children tree) []") (simp add: has_bad_count_def load_def)
qed

subsection \<open>What \<^verbatim>\<open>load\<close> admits\<close>

text \<open>
  C9. \<^verbatim>\<open>load\<close> does not check the sign of a count. For every negative integer \<open>i\<close>
  whose decimal text \<^verbatim>\<open>str\<close> produces (it has no more digits than the limit allows), a
  document with one product whose count is that text loads without an exception, and
  the catalog then holds a record with the negative count \<open>i\<close>; the call \<^verbatim>\<open>add\<close> with
  the same three values raises \<open>IllegalCount\<close>.
\<close>

theorem load_admits_negative_count:
  assumes "i < 0" and "py_str I i = Inr t"
  shows "load I (Inr (Element ''products'' None
           [Element ''product'' None
              [field_element ''name'' nm, field_element ''market'' mk,
               field_element ''count'' t]])) s =
           (None, s\<lparr>products := [\<lparr>name = nm, market = mk, count = i\<rparr>]\<rparr>) \<and>
         add nm mk i s = (Some (IllegalCount i), s)"
  using assms(1) py_int_py_str [OF assms(2)]
  by (simp add: load_def read_element_def field_element_def add_def)

theorem load_admits_negative_count_witness:
  "(- 5 :: int) < 0 \<and> py_str ascii_interpreter (- 5) = Inr ''-5'' \<and>
   load ascii_interpreter (Inr (Element ''products'' None
     [Element ''product'' None
        [field_element ''name'' ''Milk'', field_element ''market'' ''Lidl'',
         field_element ''count'' ''-5'']])) milk_staff =
     (None, \<lparr>products = [\<lparr>name = ''Milk'', market = ''Lidl'', count = - 5\<rparr>]\<rparr>) \<and>
   add ''Milk'' ''Lidl'' (- 5) milk_staff = (Some (IllegalCount (- 5)), milk_staff)"
proof -
  have h: "(- 5 :: int) < 0" by simp
  have t: "py_str ascii_interpreter (- 5) = Inr ''-5''"
    by (simp add: py_str_eval over_limit_def)
  from load_admits_negative_count [OF h t, of "''Milk''" "''Lidl''" milk_staff] h t
  show ?thesis by (simp add: milk_staff_def)
qed

lemma scan_extras:
  "\<forall>e \<in> set extras. tag e \<noteq> ''name'' \<and> tag e \<noteq> ''market'' \<and> tag e \<noteq> ''count'' \<Longrightarrow>
     scan_children I extras (Some nm, Some mk, Some i) ps =
       (None, ps @ replicate (length extras) \<lparr>name = nm, market = mk, count = i\<rparr>)"
proof (induction extras arbitrary: ps)
  case Nil
  then show ?case by simp
next
  case (Cons e extras)
  then show ?case
    by (simp add: read_element_def replicate_app_Cons_same)
qed

text \<open>
  C10. The test whether all three fields are set runs after every child element. So
  when a product element holds a name, a market and a count whose text is an integer,
  followed by further children with other tags, \<^verbatim>\<open>load\<close> appends the same record once
  for the count and once more for each further child: with one further child the
  catalog holds the record twice.
\<close>

theorem load_extra_children_duplicate:
  assumes "py_int I (Some ct) = Inr i"
    and "\<forall>e \<in> set extras. tag e \<noteq> ''name'' \<and> tag e \<noteq> ''market'' \<and> tag e \<noteq> ''count''"
  shows "load I (Inr (Element root rtx
           [Element tg tx ([field_element ''name'' nm, field_element ''market'' mk,
                            field_element ''count'' ct] @ extras)])) s =
         (None, s\<lparr>products :=
            replicate (Suc (length extras)) \<lparr>name = nm, market = mk, count = i\<rparr>\<rparr>)"
  using assms
  by (simp add: load_def read_element_def field_element_def scan_extras)

theorem load_extra_children_duplicate_witness:
  "py_int ascii_interpreter (Some ''3'') = Inr 3 \<and>
   load ascii_interpreter (Inr (Element ''products'' None
     [Element ''product'' None
        [field_element ''name'' ''Milk'', field_element ''market'' ''Lidl'',
         field_element ''count'' ''3'', field_element ''unit'' ''litre'']])) milk_staff =
     (None, \<lparr>products = [\<lparr>name = ''Milk'', market = ''Lidl'', count = 3\<rparr>,
                         \<lparr>name = ''Milk'', market = ''Lidl'', count = 3\<rparr>]\<rparr>)"
proof -
  have h: "py_int ascii_interpreter (Some ''3'') = Inr 3"
    by (simp add: py_int_eval)
  have e: "\<forall>e \<in> set [field_element ''unit'' ''litre''].
             tag e \<noteq> ''name'' \<and> tag e \<noteq> ''market'' \<and> tag e \<noteq> ''count''"
    by (simp add: field_element_def)
  from load_extra_children_duplicate [OF h e, of "''products''" None "''product''" None
      "''Milk''" "''Lidl''" milk_staff] h
  show ?thesis by (simp add: milk_staff_def)
qed

subsection \<open>Product elements without one of the fields\<close>

lemma scan_no_name:
  "\<forall>e \<in> set es. tag e \<noteq> ''name'' \<Longrightarrow> fst (scan_children I es (None, mk, ct) ps) = None \<Longrightarrow>
     snd (scan_children I es (None, mk, ct) ps) = ps"
proof (induction es arbitrary: mk ct)
  case Nil
  then show ?case by simp
next
  case (Cons e es)
  then show ?case
    by (auto simp: read_element_def split: if_splits sum.splits)
qed

lemma scan_no_market:
  "\<forall>e \<in> set es. tag e \<noteq> ''market'' \<Longrightarrow> fst (scan_children I es (nm, None, ct) ps) = None \<Longrightarrow>
     snd (scan_children I es (nm, None, ct) ps) = ps"
proof (induction es arbitrary: nm ct)
  case Nil
  then show ?case by simp
next
  case (Cons e es)
  then show ?case
    by (cases nm) (auto simp: read_element_def split: if_splits sum.splits)
qed

lemma scan_no_count:
  "\<forall>e \<in> set es. tag e \<noteq> ''count'' \<Longrightarrow> scan_children I es (nm, mk, None) ps = (None, ps)"
proof (induction es arbitrary: nm mk)
  case Nil
  then show ?case by simp
next
  case (Cons e es)
  then show ?case
    by (cases nm; cases mk) (auto simp: read_element_def split: if_splits sum.splits)
qed

text \<open>A product element in which one of the three tags does not occur contributes no
  record, provided its scan raises nothing.\<close>

lemma missing_field_dropped:
  assumes "fst (scan_children I (children pe) (None, None, None) []) = None"
    and "(\<forall>e \<in> set (children pe). tag e \<noteq> ''name'') \<or>
         (\<forall>e \<in> set (children pe). tag e \<noteq> ''market'') \<or>
         (\<forall>e \<in> set (children pe). tag e \<noteq> ''count'')"
  shows "product_records I pe = []"
  using assms scan_no_name [of "children pe" I None None "[]"]
    scan_no_market [of "children pe" I None None "[]"]
    scan_no_count [of "children pe" I None None "[]"]
  by (auto simp: product_records_def)

text \<open>
  C5 asks for exactly one record for each product element in which all three fields
  appear. On the document below the code does otherwise, under every interpreter: the
  first product element holds its three fields and then an empty \<^verbatim>\<open>note\<close> element, and
  \<^verbatim>\<open>load\<close> installs its record twice. The rest is as C5 says: the second product
  element, which has no market, contributes nothing and raises nothing, and the third
  one is loaded.
\<close>

theorem load_duplicates_complete_product:
  "load I (Inr duplicated_doc) \<lparr>products = []\<rparr> =
     (None, \<lparr>products =
        [\<lparr>name = ''Milk'', market = ''Lidl'', count = 3\<rparr>,
         \<lparr>name = ''Milk'', market = ''Lidl'', count = 3\<rparr>,
         \<lparr>name = ''Pear'', market = ''Aldi'', count = 7\<rparr>]\<rparr>) \<and>
   map (product_records I) (children duplicated_doc) =
     [[\<lparr>name = ''Milk'', market = ''Lidl'', count = 3\<rparr>,
       \<lparr>name = ''Milk'', market = ''Lidl'', count = 3\<rparr>],
      [],
      [\<lparr>name = ''Pear'', market = ''Aldi'', count = 7\<rparr>]]"
  by (simp add: duplicated_doc_def product_records_def load_eval)

theorem load_duplicates_complete_product_witness:
  "length (products (snd (load ascii_interpreter (Inr duplicated_doc) \<lparr>products = []\<rparr>))) = 3 \<and>
   length (children duplicated_doc) = 3"
  by (simp add: load_duplicates_complete_product) (simp add: duplicated_doc_def)

section \<open>\<^verbatim>\<open>save\<close>\<close>

lemma product_element_printable:
  "printable I (count p) \<Longrightarrow> product_element I p = Inr (grammar_product p)"
  by (simp add: product_element_def py_str_def grammar_product_def field_element_def
      new_element_def with_text_def append_child_def)

lemma product_element_unprintable:
  "\<not> printable I (count p) \<Longrightarrow> product_element I p = Inl ValueError"
  by (simp add: product_element_def py_str_def)

lemma save_loop_printable:
  "list_all (\<lambda>p. printable I (count p)) ps \<Longrightarrow>
     save_loop I ps root =
       Inr (Element (tag root) (text_of root) (children root @ map grammar_product ps))"
proof (induction ps arbitrary: root)
  case Nil
  then show ?case by simp
next
  case (Cons p ps)
  then show ?case
    by (simp add: product_element_printable append_child_def)
qed

lemma save_loop_unprintable:
  "\<not> list_all (\<lambda>p. printable I (count p)) ps \<Longrightarrow> save_loop I ps root = Inl ValueError"
proof (induction ps arbitrary: root)
  case Nil
  then show ?case by simp
next
  case (Cons p ps)
  show ?case
  proof (cases "printable I (count p)")
    case True
    with Cons show ?thesis by (simp add: product_element_printable)
  next
    case False
    then show ?thesis by (simp add: product_element_unprintable)
  qed
qed

text \<open>The tree that \<^verbatim>\<open>save\<close> builds is the document of the specification: one product
  element per record, in the order of the list. It is not built when \<^verbatim>\<open>str\<close> raises
  on one of the counts.\<close>

lemma save_tree_grammar:
  "save_tree I ps =
     (if list_all (\<lambda>p. printable I (count p)) ps then Inr (grammar_document ps)
      else Inl ValueError)"
  by (simp add: save_tree_def save_loop_printable save_loop_unprintable new_element_def
      grammar_document_def)



lemma render_field: "render (field_element tg t) = field_text tg t"
  by (simp add: field_element_def field_text_def character_data_escape)









section \<open>Saving and loading again\<close>

lemma product_eta: "\<lparr>name = name p, market = market p, count = count p\<rparr> = p"
  by (cases p) simp

text \<open>A document of the shape of the specification loads to the records it lists, in
  the order it lists them, sorted or not, when \<^verbatim>\<open>int\<close> reads every count.\<close>

lemma scan_grammar_products:
  "list_all (\<lambda>p. printable I (count p)) ps \<Longrightarrow>
     scan_products I (map grammar_product ps) acc = (None, acc @ ps)"
  by (induction ps arbitrary: acc)
    (simp_all add: grammar_product_def field_element_def read_element_def py_int_decimal
      product_eta)

lemma load_grammar_document:
  "list_all (\<lambda>p. printable I (count p)) ps \<Longrightarrow>
     load I (Inr (grammar_document ps)) s = (None, s\<lparr>products := ps\<rparr>)"
  by (simp add: load_def grammar_document_def scan_grammar_products)

subsection \<open>Text that the file carries unchanged\<close>

lemma normalize_newlines_id: "CHR 0x0D \<notin> set t \<Longrightarrow> normalize_newlines t = t"
  by (induction t rule: normalize_newlines.induct) auto

lemma reread_text_portable:
  "portable t \<Longrightarrow> reread_text (Some t) = Inr (if t = [] then None else Some t)"
  by (simp add: reread_text_def portable_def normalize_newlines_id)

lemma no_nonchar: "list_all (\<lambda>c. c \<noteq> CHR 0xEF) t \<Longrightarrow> \<not> has_nonchar t"
  by (induction t rule: has_nonchar.induct) simp_all

lemma is_digit_portable:
  "is_digit c \<Longrightarrow> xml_char c \<and> c \<noteq> CHR 0xEF \<and> c \<noteq> CHR 0x0D"
  by (auto simp: is_digit_def xml_char_def)

lemma portable_digits: "portable (digits n)"
proof -
  have "list_all is_digit ds \<Longrightarrow> portable ds" for ds
    unfolding portable_def xml_text_def
    by (auto simp: list_all_iff dest: is_digit_portable intro!: no_nonchar [unfolded list_all_iff])
  with digits_all show ?thesis by blast
qed

lemma portable_decimal: "portable (decimal i)"
proof (cases "i < 0")
  case True
  from portable_digits [of "nat (- i)"]
  have "list_all xml_char (digits (nat (- i)))" and "\<not> has_nonchar (digits (nat (- i)))"
    and "CHR 0x0D \<notin> set (digits (nat (- i)))"
    by (simp_all add: portable_def xml_text_def)
  moreover have "\<not> has_nonchar (CHR ''-'' # ds)" if "\<not> has_nonchar ds" for ds
    using that by (cases ds rule: has_nonchar.cases) simp_all
  ultimately show ?thesis using True
    by (simp add: decimal_def portable_def xml_text_def xml_char_def)
next
  case False
  with portable_digits show ?thesis by (simp add: decimal_def)
qed

subsection \<open>The records that come back\<close>

lemma reread_text_None: "reread_text None = Inr None"
  by (simp add: reread_text_def)

lemma reread_field:
  "portable t \<Longrightarrow>
     reread (field_element tg t) = Inr (Element tg (if t = [] then None else Some t) [])"
  by (simp add: field_element_def reread_text_portable)

lemma reread_grammar_product:
  assumes "portable (name p)" and "portable (market p)"
  shows "reread (grammar_product p) = Inr (reread_product p)"
proof -
  have "reread_all [field_element ''name'' (name p), field_element ''market'' (market p),
          field_element ''count'' (decimal (count p))] =
        Inr [Element ''name'' (if name p = [] then None else Some (name p)) [],
             Element ''market'' (if market p = [] then None else Some (market p)) [],
             Element ''count'' (Some (decimal (count p))) []]"
    using assms portable_decimal [of "count p"]
    by (simp add: reread_field decimal_not_Nil)
  then show ?thesis
    by (simp add: grammar_product_def reread_product_def reread_text_None)
qed

lemma reread_grammar_products:
  "list_all (\<lambda>p. portable (name p) \<and> portable (market p)) ps \<Longrightarrow>
     reread_all (map grammar_product ps) = Inr (map reread_product ps)"
  by (induction ps) (simp_all add: reread_grammar_product)

lemma reread_grammar_document:
  "list_all (\<lambda>p. portable (name p) \<and> portable (market p)) ps \<Longrightarrow>
     reread (grammar_document ps) = Inr (Element ''products'' None (map reread_product ps))"
  by (simp add: grammar_document_def reread_grammar_products reread_text_None)

lemma scan_reread_product:
  "printable I (count p) \<Longrightarrow>
     scan_children I (children (reread_product p)) (None, None, None) acc =
       (None, if name p \<noteq> [] \<and> market p \<noteq> [] then acc @ [p] else acc)"
  by (simp add: reread_product_def read_element_def py_int_decimal product_eta)

lemma scan_reread_products:
  "list_all (\<lambda>p. printable I (count p)) ps \<Longrightarrow>
     scan_products I (map reread_product ps) acc =
       (None, acc @ filter (\<lambda>p. name p \<noteq> [] \<and> market p \<noteq> []) ps)"
  by (induction ps arbitrary: acc) (simp_all add: scan_reread_product)

text \<open>Saving and loading again keeps, in their order, exactly the records whose name
  and market are not empty, when the texts are portable and no count is over the
  limit.\<close>

lemma save_then_load_filter:
  assumes "list_all (\<lambda>p. printable I (count p)) (products s)"
    and "list_all (\<lambda>p. portable (name p) \<and> portable (market p)) (products s)"
  shows "save_then_load I s =
     (None, \<lparr>products = filter (\<lambda>p. name p \<noteq> [] \<and> market p \<noteq> []) (products s)\<rparr>)"
  using assms
  by (simp add: save_then_load_def save_tree_grammar reread_grammar_document load_def
      scan_reread_products)

text \<open>So a catalog whose names and markets are portable and not empty, and whose counts
  are not over the limit, comes back as it was, negative counts included.\<close>

lemma roundtrip_portable:
  assumes "list_all (\<lambda>p. printable I (count p)) (products s)"
    and "list_all (\<lambda>p. portable (name p) \<and> portable (market p)) (products s)"
    and "list_all (\<lambda>p. name p \<noteq> [] \<and> market p \<noteq> []) (products s)"
  shows "save_then_load I s = (None, s)"
proof -
  from assms(3)
  have "filter (\<lambda>p. name p \<noteq> [] \<and> market p \<noteq> []) (products s) = products s"
    by (simp add: filter_id_conv list_all_iff)
  with save_then_load_filter [OF assms(1,2)] show ?thesis by (cases s) simp
qed

text \<open>Outside these bounds the records do not come back either: a carriage return in
  a name comes back as a line feed, and a control character in a name makes the file
  unreadable for \<^verbatim>\<open>load\<close>.\<close>

lemma roundtrip_carriage_return:
  "save_then_load I \<lparr>products = [\<lparr>name = [CHR ''a'', CHR 0x0D, CHR ''b''], market = ''Lidl'', count = 3\<rparr>]\<rparr> =
     (None, \<lparr>products = [\<lparr>name = [CHR ''a'', CHR 0x0A, CHR ''b''], market = ''Lidl'', count = 3\<rparr>]\<rparr>)"
  by (simp add: save_then_load_def save_eval reread_text_def xml_text_def xml_char_def
      load_eval)

lemma roundtrip_control_character:
  "save_then_load I \<lparr>products = [\<lparr>name = [CHR ''a'', CHR 0x01, CHR ''b''], market = ''Lidl'', count = 3\<rparr>]\<rparr> =
     (Some ParseError, \<lparr>products = []\<rparr>)"
  by (simp add: save_then_load_def save_eval reread_text_def xml_text_def xml_char_def
      load_eval)

text \<open>
  C2 asks that saving a catalog and loading the file into a fresh catalog gives the
  same records as a multiset. On the catalog that holds the one record Milk with an
  empty market and count 3 (the state after \<^verbatim>\<open>add("Milk", "", 3)\<close>) the code does
  otherwise, under every interpreter: \<^verbatim>\<open>save\<close> writes the market as \<^verbatim>\<open><market />\<close>,
  the parser gives that element the text \<^verbatim>\<open>None\<close>, the test \<^verbatim>\<open>market is not None\<close>
  never holds, and the loaded catalog is empty.
\<close>

theorem roundtrip_drops_empty_market:
  "add ''Milk'' [] 3 \<lparr>products = []\<rparr> = (None, empty_market_staff) \<and>
   fst (save I True empty_market_staff) =
     Inr (''<?xml version='1.0' encoding='utf8'?>'' @ [CHR 0x0A] @
       ''<products><product><name>Milk</name><market /><count>3</count></product></products>'') \<and>
   save_then_load I empty_market_staff = (None, \<lparr>products = []\<rparr>) \<and>
   mset (products (snd (save_then_load I empty_market_staff))) \<noteq>
     mset (products empty_market_staff)"
  by (simp add: empty_market_staff_def save_then_load_def add_def save_def save_eval
      xml_declaration_def reread_text_def xml_text_def xml_char_def load_eval)

theorem roundtrip_drops_empty_market_witness:
  "size (mset (products (snd (save_then_load ascii_interpreter empty_market_staff)))) = 0 \<and>
   size (mset (products empty_market_staff)) = 1"
  using roundtrip_drops_empty_market [of ascii_interpreter]
  by (simp add: empty_market_staff_def)

end
